theory Spec2Isabelle
  imports Complex_Main "HOL-Library.Multiset"
begin

section \<open>Python strings and numbers used by the server\<close>

text \<open>
  Strings are lists of 8-bit characters and are read as ASCII text: \<open>str.upper\<close>,
  \<open>str.lower\<close> and \<open>int\<close> are modelled on the ASCII range, where Python changes
  neither the length of a string nor any character outside \<open>a..z\<close> / \<open>A..Z\<close>.
\<close>

definition upper_char :: "char \<Rightarrow> char" where
  "upper_char c =
     (let n = (of_char c :: nat) in if 97 \<le> n \<and> n \<le> 122 then char_of (n - 32) else c)"

definition lower_char :: "char \<Rightarrow> char" where
  "lower_char c =
     (let n = (of_char c :: nat) in if 65 \<le> n \<and> n \<le> 90 then char_of (n + 32) else c)"

text \<open>\<open>s.upper()\<close> and \<open>s.lower()\<close>.\<close>

definition str_upper :: "string \<Rightarrow> string" where
  "str_upper s = map upper_char s"

definition str_lower :: "string \<Rightarrow> string" where
  "str_lower s = map lower_char s"

text \<open>\<open>s.replace('#', '')\<close>: every occurrence of the character is removed.\<close>

definition remove_hash :: "string \<Rightarrow> string" where
  "remove_hash s = filter (\<lambda>c. c \<noteq> CHR ''#'') s"

text \<open>\<open>s.startswith('#')\<close>.\<close>

definition startswith_hash :: "string \<Rightarrow> bool" where
  "startswith_hash s = (case s of [] \<Rightarrow> False | c # _ \<Rightarrow> c = CHR ''#'')"

subsection \<open>The format specification \<open>02X\<close>\<close>

text \<open>The digit of a value below 16.\<close>

definition hexdigit :: "nat \<Rightarrow> char" where
  "hexdigit n = ''0123456789ABCDEF'' ! n"

text \<open>The uppercase hexadecimal digits of a natural number, at least one digit.\<close>

function hex_digits :: "nat \<Rightarrow> string" where
  "hex_digits n = (if n < 16 then [hexdigit n] else hex_digits (n div 16) @ [hexdigit (n mod 16)])"
  by pat_completeness auto
termination
  by (relation "measure (\<lambda>n. n)") auto

declare hex_digits.simps [simp del]

definition pad0 :: "nat \<Rightarrow> string \<Rightarrow> string" where
  "pad0 w s = replicate (w - length s) CHR ''0'' @ s"

text \<open>
  \<open>f"{b:02X}"\<close> on a Python integer: uppercase hexadecimal, zero-filled to width 2, the
  sign of a negative number counting towards the width. Nothing is clamped or truncated.
\<close>

definition format_02X :: "int \<Rightarrow> string" where
  "format_02X b =
     (if b < 0 then CHR ''-'' # pad0 1 (hex_digits (nat (- b)))
      else pad0 2 (hex_digits (nat b)))"

subsection \<open>\<open>int(s)\<close> on a string\<close>

definition is_space :: "char \<Rightarrow> bool" where
  "is_space c = (let n = (of_char c :: nat) in (9 \<le> n \<and> n \<le> 13) \<or> (28 \<le> n \<and> n \<le> 32))"

definition strip :: "string \<Rightarrow> string" where
  "strip s = rev (dropWhile is_space (rev (dropWhile is_space s)))"

definition is_digit :: "char \<Rightarrow> bool" where
  "is_digit c = (let n = (of_char c :: nat) in 48 \<le> n \<and> n \<le> 57)"

definition digit_val :: "char \<Rightarrow> nat" where
  "digit_val c = (of_char c :: nat) - 48"

text \<open>
  Decimal digits, single underscores allowed between two digits. The flag says that
  the previous character was a digit.
\<close>

fun parse_digits :: "bool \<Rightarrow> nat \<Rightarrow> string \<Rightarrow> nat option" where
  "parse_digits prev acc [] = (if prev then Some acc else None)"
| "parse_digits prev acc (c # cs) =
     (if is_digit c then parse_digits True (10 * acc + digit_val c) cs
      else if c = CHR ''_'' \<and> prev then parse_digits False acc cs
      else None)"

text \<open>
  \<open>int(s)\<close> in base 10: surrounding whitespace is dropped, one sign is allowed, and
  anything else that is not a decimal literal raises \<open>ValueError\<close> (\<open>None\<close>).
\<close>

definition py_int :: "string \<Rightarrow> int option" where
  "py_int s =
     (case strip s of
        [] \<Rightarrow> None
      | c # cs \<Rightarrow>
          if c = CHR ''-'' then map_option (\<lambda>n. - int n) (parse_digits False 0 cs)
          else if c = CHR ''+'' then map_option int (parse_digits False 0 cs)
          else map_option int (parse_digits False 0 (c # cs)))"

section \<open>The vendor's devices\<close>

text \<open>
  The vendor library is outside the repository. A device is what the server sees of it:
  its name, identifier and class (plain strings; an absent name or class is the empty
  string, which Python treats as false just as it treats \<open>None\<close>), what
  \<open>getAttributes()\<close> answers (\<open>Inl\<close> the text of the exception it raises), and what
  \<open>writeAction(id, value)\<close> does (\<open>Some\<close> the text of the exception it raises).
\<close>

record attribute =
  attr_id :: int
  attr_value :: string

record device =
  getName :: string
  getID :: string
  getDeviceClass :: string
  getAttributes :: "string + attribute list"
  writeAction :: "int \<Rightarrow> string \<Rightarrow> string option"

section \<open>Reading the attributes of a device\<close>

text \<open>The dictionary built by \<open>get_device_attributes\<close>; \<open>None\<close> is a missing key.\<close>

record device_attrs =
  attrs_power :: "string option"
  attrs_brightness :: "int option"
  attrs_color :: "string option"

definition no_attrs :: device_attrs where
  "no_attrs = \<lparr>attrs_power = None, attrs_brightness = None, attrs_color = None\<rparr>"

text \<open>\<open>next((attr for attr in attributes if attr['id'] == k), None)\<close>.\<close>

definition find_attr :: "int \<Rightarrow> attribute list \<Rightarrow> attribute option" where
  "find_attr k attributes = find (\<lambda>a. attr_id a = k) attributes"

text \<open>The three lookups of \<open>get_device_attributes\<close>, on the dictionary built so far.\<close>

definition read_power :: "attribute list \<Rightarrow> device_attrs \<Rightarrow> device_attrs" where
  "read_power attributes result =
     (case find_attr 1 attributes of
        None \<Rightarrow> result
      | Some a \<Rightarrow> result\<lparr>attrs_power := Some (if attr_value a = ''1'' then ''ON'' else ''OFF'')\<rparr>)"

text \<open>\<open>int(brightness_attr['value'])\<close> may raise \<open>ValueError\<close>: the result is then \<open>None\<close>.\<close>

definition read_brightness :: "attribute list \<Rightarrow> device_attrs \<Rightarrow> device_attrs option" where
  "read_brightness attributes result =
     (case find_attr 2 attributes of
        None \<Rightarrow> Some result
      | Some a \<Rightarrow> map_option (\<lambda>n. result\<lparr>attrs_brightness := Some n\<rparr>) (py_int (attr_value a)))"

definition read_color :: "attribute list \<Rightarrow> device_attrs \<Rightarrow> device_attrs" where
  "read_color attributes result =
     (case find_attr 4 attributes of
        None \<Rightarrow> result
      | Some a \<Rightarrow> result\<lparr>attrs_color := Some (CHR ''#'' # attr_value a)\<rparr>)"

text \<open>
  \<open>get_device_attributes\<close>: every exception (of \<open>getAttributes()\<close>, or of \<open>int\<close> on the
  brightness value) is caught inside the function, which then returns the empty
  dictionary, whatever it had already stored.
\<close>

definition get_device_attributes :: "device \<Rightarrow> device_attrs" where
  "get_device_attributes d =
     (case getAttributes d of
        Inl e \<Rightarrow> no_attrs
      | Inr attributes \<Rightarrow>
          (case read_brightness attributes (read_power attributes no_attrs) of
             None \<Rightarrow> no_attrs
           | Some result \<Rightarrow> read_color attributes result))"

section \<open>Calls to the vendor\<close>

text \<open>
  What the server asks of the vendor library: the constructor
  \<open>Hubspace(email, password)\<close>, \<open>getDevices()\<close>, and on the device with a given
  identifier \<open>getAttributes()\<close> and \<open>writeAction(id, value)\<close>. A call is logged when it
  is made, whether it returns or raises.
\<close>

datatype vendor_call =
    Authenticate
  | GetDevices
  | GetAttributes string
  | WriteAction string int string

section \<open>Controlling one device\<close>

record DeviceResult =
  name :: string
  device_id :: string
  success :: bool
  message :: string
  power_state :: "string option"
  brightness :: "int option"
  color :: "string option"

text \<open>
  The state of one worker: the result object it fills in, and the calls it has made so
  far, in order. A raised exception carries its text and the state reached when it was
  raised.
\<close>

type_synonym worker = "DeviceResult \<times> vendor_call list"

type_synonym attempt = "(string \<times> worker) + worker"

definition write_attr :: "device \<Rightarrow> int \<Rightarrow> string \<Rightarrow> worker \<Rightarrow> attempt" where
  "write_attr d k v w =
     (case w of (r, calls) \<Rightarrow>
        (case writeAction d k v of
           Some e \<Rightarrow> Inl (e, r, calls @ [WriteAction (getID d) k v])
         | None \<Rightarrow> Inr (r, calls @ [WriteAction (getID d) k v])))"

definition set_result :: "(DeviceResult \<Rightarrow> DeviceResult) \<Rightarrow> attempt \<Rightarrow> attempt" where
  "set_result f a = (case a of Inl x \<Rightarrow> Inl x | Inr (r, calls) \<Rightarrow> Inr (f r, calls))"

text \<open>A Python \<open>Optional[str]\<close> used as a condition: \<open>None\<close> and the empty string are false.\<close>

definition truthy :: "string option \<Rightarrow> bool" where
  "truthy s = (case s of None \<Rightarrow> False | Some x \<Rightarrow> x \<noteq> [])"

text \<open>The three blocks of the \<open>try\<close> body of \<open>control_device_thread\<close>.\<close>

definition control_power :: "device \<Rightarrow> string option \<Rightarrow> worker \<Rightarrow> attempt" where
  "control_power d action w =
     (case action of
        None \<Rightarrow> Inr w
      | Some a \<Rightarrow>
          if a = [] then Inr w
          else if str_upper a = ''ON'' then
            set_result (\<lambda>r. r\<lparr>power_state := Some ''ON''\<rparr>) (write_attr d 1 ''01'' w)
          else if str_upper a = ''OFF'' then
            set_result (\<lambda>r. r\<lparr>power_state := Some ''OFF''\<rparr>) (write_attr d 1 ''00'' w)
          else Inr w)"

definition control_brightness :: "device \<Rightarrow> int option \<Rightarrow> worker \<Rightarrow> attempt" where
  "control_brightness d b w =
     (case b of
        None \<Rightarrow> Inr w
      | Some n \<Rightarrow> set_result (\<lambda>r. r\<lparr>brightness := Some n\<rparr>) (write_attr d 2 (format_02X n) w))"

text \<open>\<open>color.replace('#', '').upper()\<close>.\<close>

definition color_clean :: "string \<Rightarrow> string" where
  "color_clean c = str_upper (remove_hash c)"

definition control_color :: "device \<Rightarrow> string option \<Rightarrow> worker \<Rightarrow> attempt" where
  "control_color d c w =
     (case c of
        None \<Rightarrow> Inr w
      | Some col \<Rightarrow>
          if col = [] then Inr w
          else if length (color_clean col) = 6 then
            set_result (\<lambda>r. r\<lparr>color := Some (CHR ''#'' # color_clean col)\<rparr>)
              (write_attr d 4 (color_clean col) w)
          else Inr w)"

definition try_body ::
  "device \<Rightarrow> string option \<Rightarrow> int option \<Rightarrow> string option \<Rightarrow> worker \<Rightarrow> attempt" where
  "try_body d action b c w =
     (case control_power d action w of
        Inl x \<Rightarrow> Inl x
      | Inr w1 \<Rightarrow>
          (case control_brightness d b w1 of
             Inl x \<Rightarrow> Inl x
           | Inr w2 \<Rightarrow> control_color d c w2))"

text \<open>
  \<open>control_device_thread\<close>: the result object it returns, and the calls it made. The
  attributes are read first, inside the \<open>try\<close>; \<open>get_device_attributes\<close> never raises.
\<close>

definition control_device_thread ::
  "device \<Rightarrow> string option \<Rightarrow> int option \<Rightarrow> string option \<Rightarrow> worker" where
  "control_device_thread d action b c =
     (let current_attrs = get_device_attributes d;
          result = \<lparr>name = getName d, device_id = getID d, success = False, message = [],
                    power_state = attrs_power current_attrs,
                    brightness = attrs_brightness current_attrs,
                    color = attrs_color current_attrs\<rparr>
      in case try_body d action b c (result, [GetAttributes (getID d)]) of
           Inr (r, calls) \<Rightarrow>
             (r\<lparr>success := True, message := ''Successfully controlled '' @ getName d\<rparr>, calls)
         | Inl (e, r, calls) \<Rightarrow>
             (r\<lparr>message := ''Error controlling '' @ getName d @ '': '' @ e, success := False\<rparr>,
              calls))"

text \<open>A call is a write that the device answers with an exception.\<close>

definition write_raises :: "device \<Rightarrow> vendor_call \<Rightarrow> bool" where
  "write_raises d call =
     (case call of WriteAction i k v \<Rightarrow> writeAction d k v \<noteq> None | _ \<Rightarrow> False)"

text \<open>No call of a list is a write that raises.\<close>

definition quiet :: "device \<Rightarrow> vendor_call list \<Rightarrow> bool" where
  "quiet d cs = list_all (\<lambda>call. \<not> write_raises d call) cs"

section \<open>The server\<close>

subsection \<open>Re-authentication\<close>

text \<open>
  The vendor as one request meets it: whether the constructor raises (\<open>Some\<close> the text),
  and what \<open>getDevices()\<close> answers (\<open>Inl\<close> the text of the exception).
\<close>

record vendor =
  login :: "string option"
  getDevices :: "string + device list"

text \<open>The globals of the module: whether a client object is stored, and the list of lights.\<close>

record globals =
  hubspace_client :: bool
  light_devices :: "device list"

definition is_light :: "device \<Rightarrow> bool" where
  "is_light d =
     (getName d \<noteq> [] \<and> getDeviceClass d \<noteq> [] \<and> str_lower (getDeviceClass d) = ''light'')"

text \<open>
  \<open>initialize_hubspace\<close>: its return value, the globals after it, and the calls it made.
  When \<open>getDevices()\<close> raises, \<open>light_devices\<close> keeps its old value.
\<close>

definition initialize_hubspace :: "vendor \<Rightarrow> globals \<Rightarrow> bool \<times> globals \<times> vendor_call list" where
  "initialize_hubspace v g =
     (case login v of
        Some e \<Rightarrow> (False, g, [Authenticate])
      | None \<Rightarrow>
          (case getDevices v of
             Inl e \<Rightarrow> (False, g\<lparr>hubspace_client := True\<rparr>, [Authenticate, GetDevices])
           | Inr all_devices \<Rightarrow>
               (True, g\<lparr>hubspace_client := True, light_devices := filter is_light all_devices\<rparr>,
                [Authenticate, GetDevices])))"

subsection \<open>Requests and responses\<close>

record HTTPException =
  status_code :: nat
  detail :: string

text \<open>
  \<open>LightControlRequest\<close>. The class declares \<open>brightness\<close> with \<open>ge=0, le=100\<close>; the web
  framework builds the object from the body before the handler runs, and what it answers
  to a body that breaks the declaration is not in the repository. The handler is
  modelled on every request object, as its own range check is written.
\<close>

record LightControlRequest =
  req_name :: "string option"
  req_action :: "string option"
  req_brightness :: "int option"
  req_color :: "string option"

record ControlResponse =
  resp_success :: bool
  resp_message :: string
  results :: "DeviceResult list"
  timestamp :: real

text \<open>\<open>verify_token\<close>, the dependency of \<open>/control\<close>.\<close>

definition verify_token :: "string \<Rightarrow> string option \<Rightarrow> HTTPException + bool" where
  "verify_token SECRET_TOKEN authorization =
     (if \<not> truthy authorization \<or> authorization \<noteq> Some (''Bearer '' @ SECRET_TOKEN)
      then Inl \<lparr>status_code = 401, detail = ''Invalid or missing authorization token''\<rparr>
      else Inr True)"

text \<open>The four checks under \<open># Validate request\<close>, in their order.\<close>

definition validate_request :: "LightControlRequest \<Rightarrow> HTTPException option" where
  "validate_request request =
     (if \<not> (truthy (req_action request) \<or> req_brightness request \<noteq> None \<or>
             truthy (req_color request))
      then Some \<lparr>status_code = 400,
                 detail = ''At least one control parameter must be specified''\<rparr>
      else if truthy (req_action request) \<and>
              str_upper (the (req_action request)) \<notin> set [''ON'', ''OFF'']
      then Some \<lparr>status_code = 400, detail = ''Action must be 'ON' or 'OFF'' @ [CHR 0x27]\<rparr>
      else if (case req_brightness request of None \<Rightarrow> False | Some b \<Rightarrow> b < 0 \<or> b > 100)
      then Some \<lparr>status_code = 400, detail = ''Brightness must be between 0 and 100''\<rparr>
      else if truthy (req_color request) \<and> \<not> startswith_hash (the (req_color request))
      then Some \<lparr>status_code = 400,
                 detail = ''Color must be in hex format (e.g., '#FF0000')''\<rparr>
      else None)"

text \<open>The name filter: the lights whose lowercased name is the lowercased requested name.\<close>

definition filter_by_name :: "LightControlRequest \<Rightarrow> device list \<Rightarrow> HTTPException + device list" where
  "filter_by_name request lights =
     (if truthy (req_name request) then
        (let target_devices =
               filter (\<lambda>d. str_lower (getName d) = str_lower (the (req_name request))) lights
         in if target_devices = []
            then Inl \<lparr>status_code = 404,
                      detail = ''No light found with name '' @ [CHR 0x27] @
                               the (req_name request) @ [CHR 0x27]\<rparr>
            else Inr target_devices)
      else Inr lights)"

subsection \<open>The worker threads of \<open>control_lights\<close>\<close>

text \<open>
  The loop starts one thread per target, in the order of the list; each thread runs
  \<open>control_device_thread\<close> on its device and appends what it returns to the shared list
  \<open>results\<close>; the handler joins every thread before it goes on. The scheduler decides
  which started thread appends next. The pool keeps, with each appended result, the
  calls its thread made.
\<close>

record pool =
  unstarted :: "device list"
  running :: "device list"
  appended :: "worker list"

inductive pool_step ::
  "string option \<Rightarrow> int option \<Rightarrow> string option \<Rightarrow> pool \<Rightarrow> pool \<Rightarrow> bool"
  for action :: "string option" and b :: "int option" and c :: "string option" where
  start: "unstarted p = d # ds \<Longrightarrow>
          pool_step action b c p (p\<lparr>unstarted := ds, running := running p @ [d]\<rparr>)"
| finish: "running p = xs @ d # ys \<Longrightarrow>
           pool_step action b c p
             (p\<lparr>running := xs @ ys,
                appended := appended p @ [control_device_thread d action b c]\<rparr>)"

text \<open>
  A run of the fan-out: from no thread started to every thread started and joined.
\<close>

definition thread_fan_out ::
  "string option \<Rightarrow> int option \<Rightarrow> string option \<Rightarrow> device list \<Rightarrow> worker list \<Rightarrow> bool" where
  "thread_fan_out action b c targets ws =
     rtranclp (pool_step action b c)
       \<lparr>unstarted = targets, running = [], appended = []\<rparr>
       \<lparr>unstarted = [], running = [], appended = ws\<rparr>"

subsection \<open>The handler of \<open>/control\<close>\<close>

text \<open>\<open>str(n)\<close> on a count.\<close>

function str_nat :: "nat \<Rightarrow> string" where
  "str_nat n = (if n < 10 then [hexdigit n] else str_nat (n div 10) @ [hexdigit (n mod 10)])"
  by pat_completeness auto
termination
  by (relation "measure (\<lambda>n. n)") auto

declare str_nat.simps [simp del]

text \<open>
  The handler up to the thread loop: re-authentication, the validation of the
  parameters, the name filter. It gives the targets, or the exception it raises, with
  the globals and the calls made.
\<close>

definition resolve_targets ::
  "vendor \<Rightarrow> globals \<Rightarrow> LightControlRequest \<Rightarrow>
     (HTTPException + device list) \<times> globals \<times> vendor_call list" where
  "resolve_targets v g request =
     (case initialize_hubspace v g of
        (ok, g', calls) \<Rightarrow>
          if \<not> ok
          then (Inl \<lparr>status_code = 500, detail = ''Failed to authenticate with Hubspace''\<rparr>,
                g', calls)
          else (case validate_request request of
                  Some e \<Rightarrow> (Inl e, g', calls)
                | None \<Rightarrow> (filter_by_name request (light_devices g'), g', calls)))"

text \<open>The handler after the join: the response built from the list \<open>results\<close>.\<close>

definition prepare_response :: "real \<Rightarrow> DeviceResult list \<Rightarrow> ControlResponse" where
  "prepare_response now rs =
     (let success_count = length (filter success rs);
          total_count = length rs
      in \<lparr>resp_success = (success_count = total_count),
          resp_message = ''Controlled '' @ str_nat success_count @ ''/'' @ str_nat total_count @
                         '' devices successfully'',
          results = rs,
          timestamp = now\<rparr>)"

text \<open>
  What one request leaves behind: the reply (an exception, or the response model), the
  globals, the calls the handler made itself, and the workers in the order they
  appended.
\<close>

record outcome =
  reply :: "HTTPException + ControlResponse"
  globals_after :: globals
  handler_calls :: "vendor_call list"
  workers :: "worker list"

inductive control_lights ::
  "vendor \<Rightarrow> globals \<Rightarrow> real \<Rightarrow> LightControlRequest \<Rightarrow> outcome \<Rightarrow> bool" where
  raised: "resolve_targets v g request = (Inl e, g', calls) \<Longrightarrow>
           control_lights v g now request
             \<lparr>reply = Inl e, globals_after = g', handler_calls = calls, workers = []\<rparr>"
| responded: "resolve_targets v g request = (Inr target_devices, g', calls) \<Longrightarrow>
              thread_fan_out (req_action request) (req_brightness request) (req_color request)
                target_devices ws \<Longrightarrow>
              control_lights v g now request
                \<lparr>reply = Inr (prepare_response now (map fst ws)), globals_after = g',
                 handler_calls = calls, workers = ws\<rparr>"

text \<open>
  The endpoint \<open>POST /control\<close>: the dependency \<open>verify_token\<close> is an argument of the
  handler, so it is evaluated first, and the handler does not run when it raises.
\<close>

inductive post_control ::
  "string \<Rightarrow> vendor \<Rightarrow> globals \<Rightarrow> real \<Rightarrow> string option \<Rightarrow> LightControlRequest \<Rightarrow>
     outcome \<Rightarrow> bool" where
  unauthorized: "verify_token SECRET_TOKEN authorization = Inl e \<Longrightarrow>
                 post_control SECRET_TOKEN v g now authorization request
                   \<lparr>reply = Inl e, globals_after = g, handler_calls = [], workers = []\<rparr>"
| authorized: "verify_token SECRET_TOKEN authorization = Inr t \<Longrightarrow>
               control_lights v g now request out \<Longrightarrow>
               post_control SECRET_TOKEN v g now authorization request out"

text \<open>The status of the HTTP response: that of the exception, or 200 for a returned model.\<close>

definition http_status :: "HTTPException + ControlResponse \<Rightarrow> nat" where
  "http_status r = (case r of Inl e \<Rightarrow> status_code e | Inr resp \<Rightarrow> 200)"

text \<open>Every call to the vendor made for one request.\<close>

definition vendor_calls :: "outcome \<Rightarrow> vendor_call list" where
  "vendor_calls out = handler_calls out @ concat (map snd (workers out))"

subsection \<open>The handler of \<open>/health\<close>\<close>

record HealthResponse =
  status :: string
  hubspace_connected :: bool
  lights_available :: nat
  health_timestamp :: real

definition health_check :: "vendor \<Rightarrow> globals \<Rightarrow> real \<Rightarrow> HealthResponse \<times> globals \<times> vendor_call list" where
  "health_check v g now =
     (case initialize_hubspace v g of
        (ok, g', calls) \<Rightarrow>
          (\<lparr>status = ''healthy'', hubspace_connected = ok,
            lights_available = length (light_devices g'), health_timestamp = now\<rparr>,
           g', calls))"

section \<open>Reading a hexadecimal string\<close>

text \<open>
  The value of a string of uppercase hexadecimal digits. These functions are not in the
  server; they say what the two digits written for a brightness stand for.
\<close>

definition is_upper_hex :: "char \<Rightarrow> bool" where
  "is_upper_hex c = (let n = (of_char c :: nat) in (48 \<le> n \<and> n \<le> 57) \<or> (65 \<le> n \<and> n \<le> 70))"

definition hex_char_value :: "char \<Rightarrow> nat" where
  "hex_char_value c = (let n = (of_char c :: nat) in if n \<le> 57 then n - 48 else n - 55)"

definition hex_value :: "string \<Rightarrow> nat" where
  "hex_value s = foldl (\<lambda>acc c. 16 * acc + hex_char_value c) 0 s"


section \<open>Example devices and requests\<close>

text \<open>A light that answers every call.\<close>

definition lamp :: device where
  "lamp = \<lparr>getName = ''Lamp'', getID = ''d1'', getDeviceClass = ''light'',
            getAttributes = Inr [\<lparr>attr_id = 1, attr_value = ''1''\<rparr>,
                                 \<lparr>attr_id = 2, attr_value = ''50''\<rparr>,
                                 \<lparr>attr_id = 4, attr_value = ''00FF00''\<rparr>],
            writeAction = (\<lambda>k v. None)\<rparr>"

text \<open>A light whose attributes cannot be read, and that accepts every write.\<close>

definition porch :: device where
  "porch = \<lparr>getName = ''Porch'', getID = ''d2'', getDeviceClass = ''Light'',
             getAttributes = Inl ''timeout'',
             writeAction = (\<lambda>k v. None)\<rparr>"

text \<open>A light whose attributes can be read, and that refuses every write.\<close>

definition attic :: device where
  "attic = \<lparr>getName = ''Attic'', getID = ''d3'', getDeviceClass = ''light'',
             getAttributes = Inr [\<lparr>attr_id = 1, attr_value = ''0''\<rparr>],
             writeAction = (\<lambda>k v. Some ''offline'')\<rparr>"

definition home :: vendor where
  "home = \<lparr>login = None, getDevices = Inr [lamp, attic]\<rparr>"


definition no_globals :: globals where
  "no_globals = \<lparr>hubspace_client = False, light_devices = []\<rparr>"

definition turn_on :: LightControlRequest where
  "turn_on = \<lparr>req_name = None, req_action = Some ''on'', req_brightness = None,
               req_color = None\<rparr>"

definition empty_body :: LightControlRequest where
  "empty_body = \<lparr>req_name = None, req_action = None, req_brightness = None,
                  req_color = None\<rparr>"

definition too_bright :: LightControlRequest where
  "too_bright = \<lparr>req_name = None, req_action = None, req_brightness = Some 150,
                  req_color = None\<rparr>"


text \<open>
  The request \<open>turn_on\<close> on \<open>home\<close>, with the worker of \<open>Lamp\<close> finishing first: the
  workers, and what the request leaves behind at time 0.
\<close>

definition turn_on_workers :: "worker list" where
  "turn_on_workers = [control_device_thread lamp (Some ''on'') None None,
                      control_device_thread attic (Some ''on'') None None]"

definition turn_on_outcome :: outcome where
  "turn_on_outcome =
     \<lparr>reply = Inr (prepare_response 0 (map fst turn_on_workers)),
      globals_after = \<lparr>hubspace_client = True, light_devices = [lamp, attic]\<rparr>,
      handler_calls = [Authenticate, GetDevices],
      workers = turn_on_workers\<rparr>"

text \<open>What a request leaves behind when the handler raises \<open>e\<close> after the calls \<open>calls\<close>.\<close>

definition raised_outcome :: "HTTPException \<Rightarrow> globals \<Rightarrow> vendor_call list \<Rightarrow> outcome" where
  "raised_outcome e g calls = \<lparr>reply = Inl e, globals_after = g, handler_calls = calls, workers = []\<rparr>"

section \<open>Brightness: what is written and what is read back\<close>

lemma hex_digits_small: "n < 16 \<Longrightarrow> hex_digits n = [hexdigit n]"
  by (simp add: hex_digits.simps)

lemma hex_digits_byte:
  "16 \<le> n \<Longrightarrow> n < 256 \<Longrightarrow> hex_digits n = [hexdigit (n div 16), hexdigit (n mod 16)]"
  by (subst hex_digits.simps) (simp add: hex_digits_small less_mult_imp_div_less)

lemma hexdigit_zero: "hexdigit 0 = CHR ''0''"
  by (simp add: hexdigit_def)

lemma hexdigit_table:
  "list_all (\<lambda>n. (of_char (hexdigit n) :: nat) = (if n < 10 then 48 + n else 55 + n)) [0..<16]"
  by code_simp

lemma of_char_hexdigit:
  assumes "n < 16"
  shows "(of_char (hexdigit n) :: nat) = (if n < 10 then 48 + n else 55 + n)"
proof -
  have "n \<in> set [0..<16]" using assms by simp
  with hexdigit_table show ?thesis unfolding list_all_iff by blast
qed

lemma char_by_code: "(of_char c :: nat) \<noteq> of_char c' \<Longrightarrow> c \<noteq> c'"
  by auto

lemma format_02X_byte:
  assumes "0 \<le> b" "b < 256"
  shows "format_02X b = [hexdigit (nat b div 16), hexdigit (nat b mod 16)]"
proof (cases "nat b < 16")
  case True
  then show ?thesis using assms
    by (simp add: format_02X_def pad0_def hex_digits_small hexdigit_zero)
next
  case False
  then have "16 \<le> nat b" "nat b < 256" using assms by auto
  then show ?thesis using assms
    by (simp add: format_02X_def pad0_def hex_digits_byte)
qed


lemma hexdigit_not_special:
  assumes "n < 16"
  shows "\<not> is_space (hexdigit n)" and "hexdigit n \<noteq> CHR ''-''" and "hexdigit n \<noteq> CHR ''+''"
    and "hexdigit n \<noteq> CHR ''_''"
  using assms
  by (auto simp: is_space_def of_char_hexdigit intro!: char_by_code split: if_splits)

lemma hexdigit_is_digit: "n < 16 \<Longrightarrow> is_digit (hexdigit n) \<longleftrightarrow> n < 10"
  by (simp add: is_digit_def of_char_hexdigit)

lemma hexdigit_digit_val: "n < 10 \<Longrightarrow> digit_val (hexdigit n) = n"
  by (simp add: digit_val_def of_char_hexdigit)

lemma hexdigit_upper_hex: "n < 16 \<Longrightarrow> is_upper_hex (hexdigit n)"
  by (auto simp: is_upper_hex_def of_char_hexdigit)

lemma hexdigit_value: "n < 16 \<Longrightarrow> hex_char_value (hexdigit n) = n"
  by (simp add: hex_char_value_def of_char_hexdigit)

lemma strip_two_hexdigits:
  "h < 16 \<Longrightarrow> l < 16 \<Longrightarrow> strip [hexdigit h, hexdigit l] = [hexdigit h, hexdigit l]"
  by (simp add: strip_def hexdigit_not_special)

lemma py_int_two_hexdigits:
  assumes "h < 16" "l < 16"
  shows "py_int [hexdigit h, hexdigit l] =
           (if h < 10 \<and> l < 10 then Some (int (10 * h + l)) else None)"
  using assms
  by (simp add: py_int_def strip_two_hexdigits hexdigit_not_special hexdigit_is_digit
      hexdigit_digit_val)

lemma decimal_reading_of_hex:
  "(n div 16 < 10 \<and> n mod 16 < 10 \<and> 10 * (n div 16) + n mod 16 = n) \<longleftrightarrow> n \<le> (9::nat)"
proof -
  define h l where "h = n div 16" and "l = n mod 16"
  have n: "n = 16 * h + l" and l: "l < 16" by (simp_all add: h_def l_def)
  have "(h < 10 \<and> l < 10 \<and> 10 * h + l = n) \<longleftrightarrow> n \<le> 9"
    using n l by auto
  then show ?thesis by (simp only: h_def l_def)
qed

lemma py_int_format_02X:
  assumes "0 \<le> b" "b < 256"
  shows "py_int (format_02X b) = Some b \<longleftrightarrow> b \<le> 9"
proof -
  let ?h = "nat b div 16" and ?l = "nat b mod 16"
  have hl: "?h < 16" "?l < 16" using assms by (auto simp: less_mult_imp_div_less)
  have "py_int (format_02X b) = (if ?h < 10 \<and> ?l < 10 then Some (int (10 * ?h + ?l)) else None)"
    using assms hl by (simp only: format_02X_byte py_int_two_hexdigits)
  moreover have "int (10 * ?h + ?l) = b \<longleftrightarrow> 10 * ?h + ?l = nat b"
    using assms by auto
  moreover have "b \<le> 9 \<longleftrightarrow> nat b \<le> 9" by auto
  ultimately show ?thesis using decimal_reading_of_hex [of "nat b"] by auto
qed

lemma format_02X_hex_value:
  assumes "0 \<le> b" "b < 256"
  shows "int (hex_value (format_02X b)) = b"
  using assms by (simp add: format_02X_byte hex_value_def hexdigit_value less_mult_imp_div_less)

lemma format_02X_shape:
  assumes "0 \<le> b" "b < 256"
  shows "length (format_02X b) = 2 \<and> list_all is_upper_hex (format_02X b)"
  using assms by (simp add: format_02X_byte hexdigit_upper_hex less_mult_imp_div_less)

text \<open>
  C2. For a brightness \<open>b\<close> from 0 to 100, the value written is two uppercase
  hexadecimal digits that stand for \<open>b\<close>. The reader of attribute 2 parses its value
  with \<open>int\<close>, in base 10: applied to the written digits it gives \<open>b\<close> back exactly when
  \<open>b \<le> 9\<close>.
\<close>

theorem brightness_written_hex_read_decimal:
  assumes "0 \<le> b" and "b \<le> 100"
  shows "length (format_02X b) = 2 \<and> list_all is_upper_hex (format_02X b) \<and>
         int (hex_value (format_02X b)) = b \<and>
         (py_int (format_02X b) = Some b \<longleftrightarrow> b \<le> 9)"
proof -
  have "b < 256" using assms by simp
  with assms(1) show ?thesis
    by (simp only: format_02X_shape format_02X_hex_value py_int_format_02X simp_thms)
qed

theorem brightness_written_hex_read_decimal_witness:
  "(0::int) \<le> 7 \<and> (7::int) \<le> 100 \<and> length (format_02X 7) = 2 \<and>
   list_all is_upper_hex (format_02X 7) \<and> int (hex_value (format_02X 7)) = 7 \<and>
   py_int (format_02X 7) = Some 7"
  using brightness_written_hex_read_decimal [of 7] by simp

text \<open>
  Brightness 16 is written as \<open>10\<close> and read back as ten; brightness 10 is written as
  \<open>0A\<close>, which \<open>int\<close> rejects.
\<close>

theorem brightness_roundtrip_counterexample:
  "format_02X 16 = ''10'' \<and> py_int (format_02X 16) = Some 10 \<and>
   py_int (format_02X 16) \<noteq> Some 16 \<and>
   format_02X 10 = ''0A'' \<and> py_int (format_02X 10) = None"
  by code_simp

section \<open>The health check\<close>

text \<open>
  C10. The \<open>status\<close> field of the response of \<open>/health\<close> is \<open>healthy\<close> whatever the
  re-authentication gives; \<open>hubspace_connected\<close> is what \<open>initialize_hubspace\<close> returned,
  true exactly when the constructor and \<open>getDevices()\<close> both returned.
\<close>

theorem health_status_unconditional:
  "status (fst (health_check v g now)) = ''healthy'' \<and>
   hubspace_connected (fst (health_check v g now)) = fst (initialize_hubspace v g) \<and>
   (hubspace_connected (fst (health_check v g now)) \<longleftrightarrow>
      login v = None \<and> (\<exists>ds. getDevices v = Inr ds))"
  by (auto simp: health_check_def initialize_hubspace_def split: option.splits sum.splits)


section \<open>One device: colours of the wrong length\<close>


















section \<open>One device: exceptions of reads and writes\<close>

lemma write_attr_Inr:
  assumes "write_attr d k v (r, cs) = Inr (r', cs')"
  shows "r' = r \<and> cs' = cs @ [WriteAction (getID d) k v] \<and> writeAction d k v = None"
  using assms by (auto simp: write_attr_def split: option.splits)

lemma write_attr_Inl:
  assumes "write_attr d k v (r, cs) = Inl (e, r', cs')"
  shows "r' = r \<and> cs' = cs @ [WriteAction (getID d) k v] \<and> writeAction d k v = Some e"
  using assms by (auto simp: write_attr_def split: option.splits)

lemma set_result_Inr:
  "set_result f a = Inr (r', cs') \<longleftrightarrow> (\<exists>r. a = Inr (r, cs') \<and> r' = f r)"
  by (auto simp: set_result_def split: sum.splits)

lemma set_result_Inl: "set_result f a = Inl x \<longleftrightarrow> a = Inl x"
  by (auto simp: set_result_def split: sum.splits)

text \<open>
  A step that returns has added only writes that returned; a step that raises has
  added the write that raised, last, and carries its text.
\<close>

lemma quiet_simps:
  "quiet d []" "quiet d (xs @ ys) \<longleftrightarrow> quiet d xs \<and> quiet d ys"
  "quiet d (call # xs) \<longleftrightarrow> \<not> write_raises d call \<and> quiet d xs"
  "write_raises d (WriteAction i k v) \<longleftrightarrow> writeAction d k v \<noteq> None"
  "\<not> write_raises d (GetAttributes i)"
  by (auto simp: quiet_def write_raises_def)

lemma control_power_Inr_quiet:
  assumes "control_power d action (r, cs) = Inr (r', cs')"
  shows "\<exists>new. cs' = cs @ new \<and> quiet d new"
  using assms
  by (auto simp: control_power_def set_result_Inr quiet_simps dest!: write_attr_Inr
      split: option.splits if_splits)

lemma control_power_Inl:
  assumes "control_power d action (r, cs) = Inl (e, r', cs')"
  shows "\<exists>k v. cs' = cs @ [WriteAction (getID d) k v] \<and> writeAction d k v = Some e"
  using assms
  by (auto simp: control_power_def set_result_Inl dest!: write_attr_Inl
      split: option.splits if_splits)

lemma control_brightness_Inr_quiet:
  assumes "control_brightness d b (r, cs) = Inr (r', cs')"
  shows "\<exists>new. cs' = cs @ new \<and> quiet d new"
  using assms
  by (auto simp: control_brightness_def set_result_Inr quiet_simps dest!: write_attr_Inr
      split: option.splits)

lemma control_brightness_Inl:
  assumes "control_brightness d b (r, cs) = Inl (e, r', cs')"
  shows "\<exists>k v. cs' = cs @ [WriteAction (getID d) k v] \<and> writeAction d k v = Some e"
  using assms
  by (auto simp: control_brightness_def set_result_Inl dest!: write_attr_Inl
      split: option.splits)

lemma control_color_Inr_quiet:
  assumes "control_color d c (r, cs) = Inr (r', cs')"
  shows "\<exists>new. cs' = cs @ new \<and> quiet d new"
  using assms
  by (auto simp: control_color_def set_result_Inr quiet_simps dest!: write_attr_Inr
      split: option.splits if_splits)

lemma control_color_Inl:
  assumes "control_color d c (r, cs) = Inl (e, r', cs')"
  shows "\<exists>k v. cs' = cs @ [WriteAction (getID d) k v] \<and> writeAction d k v = Some e"
  using assms
  by (auto simp: control_color_def set_result_Inl dest!: write_attr_Inl
      split: option.splits if_splits)

lemma try_body_Inr_quiet:
  assumes "try_body d action b c (r, cs) = Inr (r', cs')"
  shows "\<exists>new. cs' = cs @ new \<and> quiet d new"
proof -
  from assms obtain r1 cs1 r2 cs2 where
    p: "control_power d action (r, cs) = Inr (r1, cs1)" and
    q: "control_brightness d b (r1, cs1) = Inr (r2, cs2)" and
    s: "control_color d c (r2, cs2) = Inr (r', cs')"
    by (auto simp: try_body_def split: sum.splits)
  from control_power_Inr_quiet [OF p] control_brightness_Inr_quiet [OF q]
    control_color_Inr_quiet [OF s]
  show ?thesis by (auto simp: quiet_simps)
qed

lemma try_body_Inl:
  assumes "try_body d action b c (r, cs) = Inl (e, r', cs')"
  shows "\<exists>mid k v. cs' = cs @ mid @ [WriteAction (getID d) k v] \<and> writeAction d k v = Some e"
proof (cases "control_power d action (r, cs)")
  case (Inl x)
  with assms have "control_power d action (r, cs) = Inl (e, r', cs')"
    by (simp add: try_body_def)
  from control_power_Inl [OF this] show ?thesis by auto
next
  case (Inr w1)
  obtain r1 cs1 where w1: "w1 = (r1, cs1)" by (cases w1)
  from control_power_Inr_quiet [OF Inr [unfolded w1]] obtain n1 where n1: "cs1 = cs @ n1"
    by blast
  show ?thesis
  proof (cases "control_brightness d b (r1, cs1)")
    case (Inl x)
    with assms Inr w1 have "control_brightness d b (r1, cs1) = Inl (e, r', cs')"
      by (simp add: try_body_def)
    from control_brightness_Inl [OF this] n1 show ?thesis by auto
  next
    case (Inr w2)
    obtain r2 cs2 where w2: "w2 = (r2, cs2)" by (cases w2)
    from control_brightness_Inr_quiet [OF Inr [unfolded w2]] obtain n2 where
      n2: "cs2 = cs1 @ n2" by blast
    from assms \<open>control_power d action (r, cs) = Inr w1\<close> w1 Inr w2
    have "control_color d c (r2, cs2) = Inl (e, r', cs')"
      by (simp add: try_body_def)
    from control_color_Inl [OF this] n1 n2 show ?thesis by auto
  qed
qed

text \<open>
  The result of a worker: success exactly when no write raised; on failure the message
  carries the text of the write that raised, which is the last call made.
\<close>

lemma thread_success_iff_quiet:
  "success (fst (control_device_thread d action b c)) \<longleftrightarrow>
     quiet d (snd (control_device_thread d action b c))"
proof (cases "try_body d action b c
         (\<lparr>name = getName d, device_id = getID d, success = False, message = [],
           power_state = attrs_power (get_device_attributes d),
           brightness = attrs_brightness (get_device_attributes d),
           color = attrs_color (get_device_attributes d)\<rparr>, [GetAttributes (getID d)])")
  case (Inl x)
  obtain e r' cs' where x: "x = (e, r', cs')" by (cases x)
  from try_body_Inl [OF Inl [unfolded x]] obtain mid k v where
    "cs' = [GetAttributes (getID d)] @ mid @ [WriteAction (getID d) k v]"
    "writeAction d k v = Some e" by blast
  with Inl x show ?thesis
    by (simp add: control_device_thread_def Let_def quiet_simps)
next
  case (Inr w)
  obtain r' cs' where w: "w = (r', cs')" by (cases w)
  from try_body_Inr_quiet [OF Inr [unfolded w]] obtain new where
    "cs' = [GetAttributes (getID d)] @ new" "quiet d new" by blast
  with Inr w show ?thesis
    by (simp add: control_device_thread_def Let_def quiet_simps)
qed

lemma thread_failure_message:
  assumes "\<not> success (fst (control_device_thread d action b c))"
  shows "\<exists>k v e. last (snd (control_device_thread d action b c)) = WriteAction (getID d) k v \<and>
           writeAction d k v = Some e \<and>
           message (fst (control_device_thread d action b c)) =
             ''Error controlling '' @ getName d @ '': '' @ e"
proof (cases "try_body d action b c
         (\<lparr>name = getName d, device_id = getID d, success = False, message = [],
           power_state = attrs_power (get_device_attributes d),
           brightness = attrs_brightness (get_device_attributes d),
           color = attrs_color (get_device_attributes d)\<rparr>, [GetAttributes (getID d)])")
  case (Inl x)
  obtain e r' cs' where x: "x = (e, r', cs')" by (cases x)
  from try_body_Inl [OF Inl [unfolded x]] obtain mid k v where
    "cs' = [GetAttributes (getID d)] @ mid @ [WriteAction (getID d) k v]"
    "writeAction d k v = Some e" by blast
  with Inl x show ?thesis
    by (simp add: control_device_thread_def Let_def)
next
  case (Inr w)
  with assms show ?thesis
    by (simp add: control_device_thread_def Let_def split: prod.splits)
qed

lemma unreadable_attributes: "getAttributes d = Inl e \<Longrightarrow> get_device_attributes d = no_attrs"
  by (simp add: get_device_attributes_def)

section \<open>The worker threads: what a run can give\<close>

text \<open>
  In every pool reached from the start, the appended results are those of some devices
  \<open>fin\<close>, in the order they finished, and \<open>fin\<close>, the running threads and the
  threads not yet started are together the targets.
\<close>

lemma pool_step_invariant:
  assumes "pool_step action b c p q"
    and "\<exists>fin. appended p = map (\<lambda>d. control_device_thread d action b c) fin \<and>
           mset fin + mset (running p) + mset (unstarted p) = M"
  shows "\<exists>fin. appended q = map (\<lambda>d. control_device_thread d action b c) fin \<and>
           mset fin + mset (running q) + mset (unstarted q) = M"
  using assms
proof (cases rule: pool_step.cases)
  case (start d ds)
  with assms(2) show ?thesis by auto
next
  case (finish xs d ys)
  from assms(2) obtain dn where
    dn: "appended p = map (\<lambda>d. control_device_thread d action b c) dn"
      "mset dn + mset (running p) + mset (unstarted p) = M" by blast
  have "appended q = map (\<lambda>d. control_device_thread d action b c) (dn @ [d])"
    using finish dn(1) by simp
  moreover have "mset (dn @ [d]) + mset (running q) + mset (unstarted q) = M"
    using finish dn(2) by simp
  ultimately show ?thesis by blast
qed

lemma pool_run_invariant:
  assumes "rtranclp (pool_step action b c) p q"
    and "\<exists>fin. appended p = map (\<lambda>d. control_device_thread d action b c) fin \<and>
           mset fin + mset (running p) + mset (unstarted p) = M"
  shows "\<exists>fin. appended q = map (\<lambda>d. control_device_thread d action b c) fin \<and>
           mset fin + mset (running q) + mset (unstarted q) = M"
  using assms
proof (induction rule: rtranclp_induct)
  case base
  then show ?case .
next
  case (step y z)
  from pool_step_invariant [OF step.hyps(2) step.IH [OF step.prems]] show ?case .
qed

lemma fan_out_sound:
  assumes "thread_fan_out action b c targets ws"
  shows "\<exists>order. mset order = mset targets \<and>
           ws = map (\<lambda>d. control_device_thread d action b c) order"
proof -
  have "\<exists>fin. appended \<lparr>unstarted = targets, running = [], appended = []\<rparr> =
            map (\<lambda>d. control_device_thread d action b c) fin \<and>
          mset fin + mset (running \<lparr>unstarted = targets, running = [], appended = []\<rparr>) +
            mset (unstarted \<lparr>unstarted = targets, running = [], appended = []\<rparr>) = mset targets"
    by simp
  from pool_run_invariant [OF assms [unfolded thread_fan_out_def] this]
  show ?thesis by auto
qed

text \<open>Every thread can be started, and the started threads can finish in any order.\<close>

lemma start_all:
  "rtranclp (pool_step action b c)
     \<lparr>unstarted = us, running = rs, appended = as\<rparr>
     \<lparr>unstarted = [], running = rs @ us, appended = as\<rparr>"
proof (induction us arbitrary: rs)
  case Nil
  show ?case by simp
next
  case (Cons u us)
  have "pool_step action b c \<lparr>unstarted = u # us, running = rs, appended = as\<rparr>
          (\<lparr>unstarted = u # us, running = rs, appended = as\<rparr>
             \<lparr>unstarted := us,
              running := running \<lparr>unstarted = u # us, running = rs, appended = as\<rparr> @ [u]\<rparr>)"
    by (rule pool_step.start) simp
  then have "pool_step action b c \<lparr>unstarted = u # us, running = rs, appended = as\<rparr>
               \<lparr>unstarted = us, running = rs @ [u], appended = as\<rparr>"
    by simp
  from converse_rtranclp_into_rtranclp [OF this Cons.IH [of "rs @ [u]"]]
  show ?case by simp
qed

lemma finish_all:
  assumes "mset order = mset rs"
  shows "rtranclp (pool_step action b c)
           \<lparr>unstarted = [], running = rs, appended = as\<rparr>
           \<lparr>unstarted = [], running = [],
            appended = as @ map (\<lambda>d. control_device_thread d action b c) order\<rparr>"
  using assms
proof (induction order arbitrary: rs as)
  case Nil
  then show ?case by simp
next
  case (Cons d order)
  from Cons.prems have "d \<in> set rs"
    by (metis list.set_intros(1) mset_eq_setD)
  then obtain xs ys where rs: "rs = xs @ d # ys" by (auto dest: split_list)
  with Cons.prems have rest: "mset order = mset (xs @ ys)" by simp
  have "pool_step action b c \<lparr>unstarted = [], running = rs, appended = as\<rparr>
          (\<lparr>unstarted = [], running = rs, appended = as\<rparr>
             \<lparr>running := xs @ ys,
              appended := appended \<lparr>unstarted = [], running = rs, appended = as\<rparr> @
                          [control_device_thread d action b c]\<rparr>)"
    by (rule pool_step.finish) (simp add: rs)
  then have "pool_step action b c \<lparr>unstarted = [], running = rs, appended = as\<rparr>
               \<lparr>unstarted = [], running = xs @ ys,
                appended = as @ [control_device_thread d action b c]\<rparr>"
    by simp
  from converse_rtranclp_into_rtranclp
    [OF this Cons.IH [OF rest, of "as @ [control_device_thread d action b c]"]]
  show ?case by simp
qed

lemma fan_out_complete:
  assumes "mset order = mset targets"
  shows "thread_fan_out action b c targets
           (map (\<lambda>d. control_device_thread d action b c) order)"
proof -
  have "rtranclp (pool_step action b c)
          \<lparr>unstarted = targets, running = [], appended = []\<rparr>
          \<lparr>unstarted = [], running = targets, appended = []\<rparr>"
    using start_all [of action b c targets "[]" "[]"] by simp
  moreover have "rtranclp (pool_step action b c)
          \<lparr>unstarted = [], running = targets, appended = []\<rparr>
          \<lparr>unstarted = [], running = [],
           appended = map (\<lambda>d. control_device_thread d action b c) order\<rparr>"
    using finish_all [OF assms, of action b c "[]"] by simp
  ultimately show ?thesis unfolding thread_fan_out_def by (rule rtranclp_trans)
qed

lemma fan_out_mset:
  assumes "thread_fan_out action b c targets ws"
  shows "mset ws = image_mset (\<lambda>d. control_device_thread d action b c) (mset targets)"
proof -
  from fan_out_sound [OF assms] obtain order where
    "mset order = mset targets" "ws = map (\<lambda>d. control_device_thread d action b c) order"
    by blast
  then show ?thesis by (metis mset_map)
qed

lemma fan_out_length:
  assumes "thread_fan_out action b c targets ws"
  shows "length ws = length targets"
proof -
  from fan_out_mset [OF assms] have "size (mset ws) = size (mset targets)" by simp
  then show ?thesis by simp
qed

text \<open>
  C1. A run of the fan-out over the targets gives exactly the results of
  \<open>control_device_thread\<close> on the targets, one for each, listed in the order in which the
  threads finished; every order of the targets is the order of some run. In particular
  there are as many results as targets, whatever succeeded or failed.
\<close>

theorem fan_out_results_in_finishing_order:
  "(thread_fan_out action b c targets ws \<longleftrightarrow>
      (\<exists>order. mset order = mset targets \<and>
         ws = map (\<lambda>d. control_device_thread d action b c) order)) \<and>
   (thread_fan_out action b c targets ws \<longrightarrow>
      length ws = length targets \<and>
      mset (map fst ws) =
        mset (map (\<lambda>d. fst (control_device_thread d action b c)) targets))"
proof (intro conjI impI iffI)
  assume "thread_fan_out action b c targets ws"
  then show "\<exists>order. mset order = mset targets \<and>
      ws = map (\<lambda>d. control_device_thread d action b c) order"
    by (rule fan_out_sound)
next
  assume "\<exists>order. mset order = mset targets \<and>
      ws = map (\<lambda>d. control_device_thread d action b c) order"
  then show "thread_fan_out action b c targets ws"
    by (auto intro: fan_out_complete)
next
  assume "thread_fan_out action b c targets ws"
  then show "length ws = length targets" by (rule fan_out_length)
next
  assume run: "thread_fan_out action b c targets ws"
  have "mset (map fst ws) = image_mset fst (mset ws)" by simp
  also have "\<dots> = image_mset fst
      (image_mset (\<lambda>d. control_device_thread d action b c) (mset targets))"
    by (simp only: fan_out_mset [OF run])
  also have "\<dots> = mset (map (\<lambda>d. fst (control_device_thread d action b c)) targets)"
    by (simp add: image_mset.compositionality comp_def)
  finally show "mset (map fst ws) =
      mset (map (\<lambda>d. fst (control_device_thread d action b c)) targets)" .
qed

theorem fan_out_results_in_finishing_order_witness:
  "thread_fan_out (Some ''on'') None None [lamp, attic]
     [control_device_thread attic (Some ''on'') None None,
      control_device_thread lamp (Some ''on'') None None] \<and>
   length [control_device_thread attic (Some ''on'') None None,
           control_device_thread lamp (Some ''on'') None None] = length [lamp, attic]"
proof -
  have "mset [attic, lamp] = mset [lamp, attic]" by simp
  then have "\<exists>order. mset order = mset [lamp, attic] \<and>
      [control_device_thread attic (Some ''on'') None None,
       control_device_thread lamp (Some ''on'') None None] =
      map (\<lambda>d. control_device_thread d (Some ''on'') None None) order"
    by (intro exI [of _ "[attic, lamp]"]) simp
  with fan_out_results_in_finishing_order
    [of "Some ''on''" None None "[lamp, attic]"
      "[control_device_thread attic (Some ''on'') None None,
        control_device_thread lamp (Some ''on'') None None]"]
  show ?thesis by blast
qed

text \<open>
  With the targets \<open>Lamp\<close>, \<open>Attic\<close> there is a run whose results are those of \<open>Attic\<close>,
  \<open>Lamp\<close>: the thread of the second target appended first.
\<close>

theorem fan_out_order_counterexample:
  "thread_fan_out (Some ''on'') None None [lamp, attic]
     [control_device_thread attic (Some ''on'') None None,
      control_device_thread lamp (Some ''on'') None None] \<and>
   map getName [lamp, attic] = [''Lamp'', ''Attic''] \<and>
   map (name \<circ> fst) [control_device_thread attic (Some ''on'') None None,
                      control_device_thread lamp (Some ''on'') None None] = [''Attic'', ''Lamp'']"
proof -
  have "mset [attic, lamp] = mset [lamp, attic]" by simp
  from fan_out_complete [OF this, of "Some ''on''" None None]
  have "thread_fan_out (Some ''on'') None None [lamp, attic]
     [control_device_thread attic (Some ''on'') None None,
      control_device_thread lamp (Some ''on'') None None]" by simp
  moreover have "map getName [lamp, attic] = [''Lamp'', ''Attic'']"
    by (simp add: lamp_def attic_def)
  moreover have "map (name \<circ> fst) [control_device_thread attic (Some ''on'') None None,
                      control_device_thread lamp (Some ''on'') None None] = [''Attic'', ''Lamp'']"
    by code_simp
  ultimately show ?thesis by blast
qed

text \<open>
  C4. In a run over targets that include a device \<open>d\<close>: an exception of a write to \<open>d\<close>
  is caught in the worker of \<open>d\<close>, whose result then has \<open>success = False\<close> and a message
  with the text of the exception; the result reports success exactly when no write
  raised. An exception of the read of the attributes is caught too, and only leaves
  the attributes unread. Neither reaches the other workers: the run ends, the result
  of \<open>d\<close> is in the list, and the other results are those of a run without \<open>d\<close>.
\<close>

theorem device_failure_stays_in_its_result:
  assumes "thread_fan_out action b c (xs @ d # ys) ws"
  shows "(success (fst (control_device_thread d action b c)) \<longleftrightarrow>
            quiet d (snd (control_device_thread d action b c))) \<and>
         (success (fst (control_device_thread d action b c)) \<or>
            (\<exists>k v e. last (snd (control_device_thread d action b c)) = WriteAction (getID d) k v \<and>
               writeAction d k v = Some e \<and>
               message (fst (control_device_thread d action b c)) =
                 ''Error controlling '' @ getName d @ '': '' @ e)) \<and>
         (isl (getAttributes d) \<longrightarrow> get_device_attributes d = no_attrs) \<and>
         control_device_thread d action b c \<in> set ws \<and>
         (\<exists>ws'. thread_fan_out action b c (xs @ ys) ws') \<and>
         (\<forall>ws'. thread_fan_out action b c (xs @ ys) ws' \<longrightarrow>
            mset ws = add_mset (control_device_thread d action b c) (mset ws'))"
proof (intro conjI allI impI)
  show "success (fst (control_device_thread d action b c)) \<longleftrightarrow>
          quiet d (snd (control_device_thread d action b c))"
    by (rule thread_success_iff_quiet)
  show "success (fst (control_device_thread d action b c)) \<or>
          (\<exists>k v e. last (snd (control_device_thread d action b c)) = WriteAction (getID d) k v \<and>
             writeAction d k v = Some e \<and>
             message (fst (control_device_thread d action b c)) =
               ''Error controlling '' @ getName d @ '': '' @ e)"
    using thread_failure_message [of d action b c] by blast
  show "get_device_attributes d = no_attrs" if "isl (getAttributes d)"
    using that by (auto simp: isl_def unreadable_attributes)
  have all: "mset ws =
      image_mset (\<lambda>x. control_device_thread x action b c) (mset (xs @ d # ys))"
    by (rule fan_out_mset [OF assms])
  then have "control_device_thread d action b c \<in># mset ws" by simp
  then show "control_device_thread d action b c \<in> set ws" by simp
  have "mset (xs @ ys) = mset (xs @ ys)" ..
  from fan_out_complete [OF this, of action b c]
  show "\<exists>ws'. thread_fan_out action b c (xs @ ys) ws'" by blast
  show "mset ws = add_mset (control_device_thread d action b c) (mset ws')"
    if "thread_fan_out action b c (xs @ ys) ws'" for ws'
    using all fan_out_mset [OF that] by simp
qed

theorem device_failure_stays_in_its_result_witness:
  "thread_fan_out (Some ''on'') None None ([lamp] @ attic # [])
     [control_device_thread lamp (Some ''on'') None None,
      control_device_thread attic (Some ''on'') None None] \<and>
   \<not> success (fst (control_device_thread attic (Some ''on'') None None)) \<and>
   \<not> quiet attic (snd (control_device_thread attic (Some ''on'') None None)) \<and>
   control_device_thread attic (Some ''on'') None None \<in>
     set [control_device_thread lamp (Some ''on'') None None,
          control_device_thread attic (Some ''on'') None None] \<and>
   success (fst (control_device_thread lamp (Some ''on'') None None))"
proof -
  have "mset [lamp, attic] = mset ([lamp] @ attic # [])" by simp
  from fan_out_complete [OF this, of "Some ''on''" None None]
  have run: "thread_fan_out (Some ''on'') None None ([lamp] @ attic # [])
     [control_device_thread lamp (Some ''on'') None None,
      control_device_thread attic (Some ''on'') None None]" by simp
  have fails: "\<not> success (fst (control_device_thread attic (Some ''on'') None None))"
    by code_simp
  have works: "success (fst (control_device_thread lamp (Some ''on'') None None))"
    by code_simp
  from device_failure_stays_in_its_result [OF run] run fails works show ?thesis by blast
qed

text \<open>
  The attributes of \<open>Porch\<close> cannot be read: its worker reports success all the same,
  and the message does not mention the exception.
\<close>

theorem read_failure_counterexample:
  "getAttributes porch = Inl ''timeout'' \<and>
   control_device_thread porch (Some ''ON'') None None =
     (\<lparr>name = ''Porch'', device_id = ''d2'', success = True,
       message = ''Successfully controlled Porch'', power_state = Some ''ON'',
       brightness = None, color = None\<rparr>,
      [GetAttributes ''d2'', WriteAction ''d2'' 1 ''01''])"
proof
  show "getAttributes porch = Inl ''timeout''" by (simp add: porch_def)
  show "control_device_thread porch (Some ''ON'') None None =
     (\<lparr>name = ''Porch'', device_id = ''d2'', success = True,
       message = ''Successfully controlled Porch'', power_state = Some ''ON'',
       brightness = None, color = None\<rparr>,
      [GetAttributes ''d2'', WriteAction ''d2'' 1 ''01''])"
    by code_simp
qed


section \<open>The endpoint \<open>/control\<close>: the order of its exits\<close>

lemma verify_token_Inr:
  "verify_token SECRET_TOKEN authorization = Inr t \<longleftrightarrow>
     t \<and> authorization = Some (''Bearer '' @ SECRET_TOKEN)"
  by (auto simp: verify_token_def truthy_def)

lemma verify_token_Inl:
  "verify_token SECRET_TOKEN authorization = Inl e \<longleftrightarrow>
     authorization \<noteq> Some (''Bearer '' @ SECRET_TOKEN) \<and>
     e = \<lparr>status_code = 401, detail = ''Invalid or missing authorization token''\<rparr>"
  by (auto simp: verify_token_def truthy_def)






text \<open>The exits of the handler, in the order of its code.\<close>

lemma unauthorized_outcome:
  assumes "post_control SECRET_TOKEN v g now authorization request out"
    and "authorization \<noteq> Some (''Bearer '' @ SECRET_TOKEN)"
  shows "out = raised_outcome
                 \<lparr>status_code = 401, detail = ''Invalid or missing authorization token''\<rparr> g []"
  using assms
  by (cases rule: post_control.cases)
    (auto simp: verify_token_Inl verify_token_Inr raised_outcome_def)






lemma http_status_simps:
  "http_status (Inl e) = status_code e" "http_status (Inr resp) = 200"
  by (simp_all add: http_status_def)


subsection \<open>Example requests, run\<close>

lemma example_lights: "is_light lamp" "is_light attic"
  by code_simp+

lemma initialize_home:
  "initialize_hubspace home no_globals =
     (True, \<lparr>hubspace_client = True, light_devices = [lamp, attic]\<rparr>,
      [Authenticate, GetDevices])"
  by (simp add: initialize_hubspace_def home_def no_globals_def example_lights)


lemma token_accepted: "verify_token ''SECRET123'' (Some ''Bearer SECRET123'') = Inr True"
  by (simp add: verify_token_Inr)

lemma validate_examples:
  "validate_request turn_on = None"
  "validate_request empty_body =
     Some \<lparr>status_code = 400, detail = ''At least one control parameter must be specified''\<rparr>"
  "validate_request too_bright =
     Some \<lparr>status_code = 400, detail = ''Brightness must be between 0 and 100''\<rparr>"
  by code_simp+



lemma turn_on_run:
  "post_control ''SECRET123'' home no_globals 0 (Some ''Bearer SECRET123'') turn_on
     turn_on_outcome"
proof (rule post_control.authorized [OF token_accepted])
  have targets: "resolve_targets home no_globals turn_on =
      (Inr [lamp, attic], \<lparr>hubspace_client = True, light_devices = [lamp, attic]\<rparr>,
       [Authenticate, GetDevices])"
    by (simp add: resolve_targets_def initialize_home validate_examples filter_by_name_def)
      (simp add: turn_on_def truthy_def)
  have "mset [lamp, attic] = mset [lamp, attic]" ..
  from fan_out_complete [OF this, of "Some ''on''" None None]
  have "thread_fan_out (req_action turn_on) (req_brightness turn_on) (req_color turn_on)
          [lamp, attic] turn_on_workers"
    by (simp add: turn_on_def turn_on_workers_def)
  from control_lights.responded [OF targets this]
  show "control_lights home no_globals 0 turn_on turn_on_outcome"
    by (simp add: turn_on_outcome_def)
qed

lemma turn_on_response:
  "prepare_response 0 (map fst turn_on_workers) =
   \<lparr>resp_success = False, resp_message = ''Controlled 1/2 devices successfully'',
    results = [\<lparr>name = ''Lamp'', device_id = ''d1'', success = True,
                message = ''Successfully controlled Lamp'', power_state = Some ''ON'',
                brightness = Some 50, color = Some ''#00FF00''\<rparr>,
               \<lparr>name = ''Attic'', device_id = ''d3'', success = False,
                message = ''Error controlling Attic: offline'', power_state = Some ''OFF'',
                brightness = None, color = None\<rparr>],
    timestamp = 0\<rparr>"
  by code_simp

section \<open>The endpoint \<open>/control\<close>: its answers\<close>

lemma all_counted: "length (filter P xs) = length xs \<longleftrightarrow> list_all P xs"
proof (induction xs)
  case Nil
  show ?case by simp
next
  case (Cons x xs)
  have "length (filter P xs) < Suc (length xs)" by (simp add: less_Suc_eq_le)
  then have "length (filter P xs) \<noteq> Suc (length xs)" by (rule less_imp_neq)
  with Cons show ?case by auto
qed

lemma prepare_response_fields:
  "resp_success (prepare_response now rs) = list_all success rs"
  "results (prepare_response now rs) = rs"
  by (simp_all add: prepare_response_def Let_def all_counted)

lemma responded_outcome:
  assumes "post_control SECRET_TOKEN v g now authorization request out"
    and "reply out = Inr resp"
  shows "resp = prepare_response now (map fst (workers out))"
  using assms(1)
proof (cases rule: post_control.cases)
  case (unauthorized e)
  with assms(2) show ?thesis by simp
next
  case (authorized t)
  from authorized(2) assms(2) show ?thesis
    by (cases rule: control_lights.cases) auto
qed

text \<open>
  C5. When \<open>/control\<close> answers with a response model, its \<open>success\<close> flag is true exactly
  when every result in it has \<open>success = True\<close>, and the status is 200; so a response
  with a failed device has status 200 and \<open>success = False\<close>.
\<close>

theorem aggregate_success_iff_every_result:
  assumes "post_control SECRET_TOKEN v g now authorization request out"
    and "reply out = Inr resp"
  shows "(resp_success resp \<longleftrightarrow> list_all success (results resp)) \<and>
         results resp = map fst (workers out) \<and>
         http_status (reply out) = 200 \<and>
         (\<not> list_all success (results resp) \<longrightarrow>
            \<not> resp_success resp \<and> http_status (reply out) = 200)"
  using responded_outcome [OF assms] assms(2)
  by (simp add: prepare_response_fields http_status_simps)

theorem aggregate_success_iff_every_result_witness:
  "post_control ''SECRET123'' home no_globals 0 (Some ''Bearer SECRET123'') turn_on
     turn_on_outcome \<and>
   reply turn_on_outcome = Inr (prepare_response 0 (map fst turn_on_workers)) \<and>
   \<not> resp_success (prepare_response 0 (map fst turn_on_workers)) \<and>
   \<not> list_all success (results (prepare_response 0 (map fst turn_on_workers))) \<and>
   http_status (reply turn_on_outcome) = 200"
proof -
  have r: "reply turn_on_outcome = Inr (prepare_response 0 (map fst turn_on_workers))"
    by (simp add: turn_on_outcome_def)
  have f: "\<not> resp_success (prepare_response 0 (map fst turn_on_workers))"
    by (simp add: turn_on_response)
  from aggregate_success_iff_every_result [OF turn_on_run r] turn_on_run r f
  show ?thesis by blast
qed

text \<open>
  C8. A request to \<open>/control\<close> whose \<open>Authorization\<close> header is missing or is not
  \<open>Bearer\<close> followed by the token has one outcome: status 401, no call to the vendor
  (no authentication, no device listing, no read, no write), the globals untouched.
\<close>

theorem bad_token_never_reaches_the_vendor:
  assumes "authorization \<noteq> Some (''Bearer '' @ SECRET_TOKEN)"
  shows "(post_control SECRET_TOKEN v g now authorization request out \<longleftrightarrow>
            out = raised_outcome
                    \<lparr>status_code = 401, detail = ''Invalid or missing authorization token''\<rparr>
                    g []) \<and>
         (post_control SECRET_TOKEN v g now authorization request out \<longrightarrow>
            http_status (reply out) = 401 \<and> vendor_calls out = [] \<and> globals_after out = g)"
proof (intro conjI iffI impI)
  assume "post_control SECRET_TOKEN v g now authorization request out"
  from unauthorized_outcome [OF this assms]
  show "out = raised_outcome
          \<lparr>status_code = 401, detail = ''Invalid or missing authorization token''\<rparr> g []" .
next
  assume "out = raised_outcome
      \<lparr>status_code = 401, detail = ''Invalid or missing authorization token''\<rparr> g []"
  moreover have "verify_token SECRET_TOKEN authorization =
      Inl \<lparr>status_code = 401, detail = ''Invalid or missing authorization token''\<rparr>"
    using assms by (simp add: verify_token_Inl)
  from post_control.unauthorized [OF this]
  have "post_control SECRET_TOKEN v g now authorization request
      (raised_outcome
         \<lparr>status_code = 401, detail = ''Invalid or missing authorization token''\<rparr> g [])"
    by (simp add: raised_outcome_def)
  ultimately show "post_control SECRET_TOKEN v g now authorization request out" by simp
next
  assume "post_control SECRET_TOKEN v g now authorization request out"
  from unauthorized_outcome [OF this assms]
  show "http_status (reply out) = 401" "vendor_calls out = []" "globals_after out = g"
    by (simp_all add: raised_outcome_def http_status_simps vendor_calls_def)
qed

theorem bad_token_never_reaches_the_vendor_witness:
  "Some ''Bearer WRONG'' \<noteq> Some (''Bearer '' @ ''SECRET123'') \<and>
   post_control ''SECRET123'' home no_globals 0 (Some ''Bearer WRONG'') turn_on
     (raised_outcome
        \<lparr>status_code = 401, detail = ''Invalid or missing authorization token''\<rparr>
        no_globals []) \<and>
   vendor_calls (raised_outcome
        \<lparr>status_code = 401, detail = ''Invalid or missing authorization token''\<rparr>
        no_globals []) = []"
proof -
  have a: "Some ''Bearer WRONG'' \<noteq> Some (''Bearer '' @ ''SECRET123'')" by simp
  from bad_token_never_reaches_the_vendor [OF a, of home no_globals 0 turn_on
      "raised_outcome
        \<lparr>status_code = 401, detail = ''Invalid or missing authorization token''\<rparr>
        no_globals []"] a
  show ?thesis by blast
qed







text \<open>The endpoint always answers: every request has an outcome.\<close>

lemma post_control_answers:
  "\<exists>out. post_control SECRET_TOKEN v g now authorization request out"
proof (cases "verify_token SECRET_TOKEN authorization")
  case (Inl e)
  from post_control.unauthorized [OF this] show ?thesis by blast
next
  case (Inr t)
  obtain r g' calls where res: "resolve_targets v g request = (r, g', calls)"
    by (cases "resolve_targets v g request") auto
  show ?thesis
  proof (cases r)
    case (Inl e)
    from control_lights.raised [OF res [unfolded Inl]] post_control.authorized [OF Inr]
    show ?thesis by blast
  next
    case target: (Inr target_devices)
    have "mset target_devices = mset target_devices" ..
    from control_lights.responded [OF res [unfolded target] fan_out_complete [OF this]]
      post_control.authorized [OF Inr]
    show ?thesis by blast
  qed
qed


end
